theory Spec2Isabelle
  imports Main "HOL-Library.Char_ord" "HOL-Library.List_Lexorder"
begin

section \<open>Data model\<close>

text \<open>
  The interfaces of the component that keeps its patients in the object store
  \<^verbatim>\<open>patients\<close> of the database \<^verbatim>\<open>PatientCareDB\<close>. The field \<^verbatim>\<open>id\<close> is written
  \<open>id_m\<close> for a medication and \<open>id_p\<close> for a patient, and \<^verbatim>\<open>notes\<close> is written
  \<open>notes_p\<close>. A patient that was written under an earlier schema may lack
  \<^verbatim>\<open>medications\<close> or \<^verbatim>\<open>notes\<close>: an absent property (\<^verbatim>\<open>undefined\<close> when read) is
  \<open>None\<close>. The shape of a medication differs between the versions of the component,
  so a patient is polymorphic in it.
\<close>

record medication =
  id_m :: string
  description :: string
  date :: string

record 'm patient =
  id_p :: string
  name :: string
  mobile :: string
  place :: string
  visitedDate :: string
  nextVisitDate :: string
  medications :: "'m list option"
  notes_p :: "string option"

record backupConfig =
  enabled :: bool
  interval :: int
  lastBackup :: int
  maxBackups :: int

record backupEntry =
  timestamp :: int
  filename :: string

text \<open>
  The text of a file is represented by what \<^verbatim>\<open>JSON.parse\<close> makes of it: a
  \<^verbatim>\<open>SyntaxError\<close> (\<open>Malformed\<close>), a value that is not an array (\<open>NotArray\<close>), or an
  array. An element of the array is a patient, or a value from which the key path
  \<^verbatim>\<open>id\<close> of the object store yields no key (\<open>Keyless\<close>): a number, say, or an
  object without \<^verbatim>\<open>id\<close>. An element that has a key is taken to have the fields of
  the interface \<^verbatim>\<open>Patient\<close>, as the code takes it.
\<close>

datatype item = Record "medication patient" | Keyless

datatype fileContent = Malformed | NotArray | ArrayOf "item list"

text \<open>
  The state of the component: the \<^verbatim>\<open>useState\<close> cells that the data operations read
  and write, the database handle (\<open>db\<close> is \<open>False\<close> while the handle is \<^verbatim>\<open>null\<close>), the
  contents of the object store (its records in ascending order of their key, as
  \<^verbatim>\<open>getAll\<close> returns them), the two \<^verbatim>\<open>localStorage\<close> items of the backup settings, and
  the files handed to the browser for download, oldest first.
\<close>

record app =
  patients :: "medication patient list"
  newPatient :: "medication patient"
  editingId :: "string option"
  selectedPatient :: "medication patient option"
  newMedication :: medication
  backupConfig :: backupConfig
  backupHistory :: "backupEntry list"
  db :: bool
  store :: "medication patient list"
  savedConfig :: "backupConfig option"
  savedHistory :: "backupEntry list option"
  downloads :: "(string \<times> fileContent) list"

section \<open>The platform: JavaScript values, the clock, the object store\<close>

text \<open>\<^verbatim>\<open>x || []\<close> on a property that holds an array or is absent.\<close>

definition orEmpty :: "'a list option \<Rightarrow> 'a list" where
  "orEmpty x = (case x of None \<Rightarrow> [] | Some xs \<Rightarrow> xs)"

text \<open>
  \<^verbatim>\<open>Date.now().toString()\<close>: the decimal numeral of the clock's reading, an integer
  number of milliseconds.
\<close>

definition digit :: "nat \<Rightarrow> char" where
  "digit d = char_of (48 + d)"

fun digits :: "nat \<Rightarrow> string" where
  "digits n = (if n < 10 then [digit n] else digits (n div 10) @ [digit (n mod 10)])"

declare digits.simps [simp del]

definition toString :: "int \<Rightarrow> string" where
  "toString i = (if i < 0 then CHR ''-'' # digits (nat (- i)) else digits (nat i))"

text \<open>
  \<^verbatim>\<open>xs.slice(0, end)\<close> for an integer \<^verbatim>\<open>end\<close>, here \<open>stop\<close>: a negative one counts
  from the end of the array.
\<close>

definition slice0 :: "'a list \<Rightarrow> int \<Rightarrow> 'a list" where
  "slice0 xs stop =
     (let len = int (length xs);
          final = (if stop < 0 then max (len + stop) 0 else min stop len)
      in take (nat final) xs)"

text \<open>
  A transaction on the object store, whose key path is \<^verbatim>\<open>id\<close>, is the list of the
  requests placed on it. \<^verbatim>\<open>clear\<close> empties the store; \<^verbatim>\<open>add\<close> fails when a record
  with the same key is there, and otherwise puts the record at its place in the
  order of the keys (strings, compared character by character). No request has an
  error handler, so a failed request aborts the transaction and the store stays as
  it was before the transaction.
\<close>

datatype request = Clear | Add "medication patient"

fun requests ::
  "request list \<Rightarrow> medication patient list \<Rightarrow> medication patient list option" where
  "requests [] st = Some st"
| "requests (Clear # rs) st = requests rs []"
| "requests (Add p # rs) st =
     (if id_p p \<in> set (map id_p st) then None else requests rs (insort_key id_p p st))"

definition transaction ::
  "request list \<Rightarrow> medication patient list \<Rightarrow> medication patient list" where
  "transaction rs st = (case requests rs st of None \<Rightarrow> st | Some st' \<Rightarrow> st')"

text \<open>
  \<^verbatim>\<open>JSON.stringify(data, null, 2)\<close> of the records of the store is the text that
  \<^verbatim>\<open>JSON.parse\<close> reads back as the array of these records.
\<close>

definition stringify :: "medication patient list \<Rightarrow> fileContent" where
  "stringify data = ArrayOf (map Record data)"

section \<open>Loading and saving patients\<close>

definition loadPatients :: "app \<Rightarrow> app" where
  "loadPatients s =
     s\<lparr>patients :=
         map (\<lambda>patient. patient\<lparr>medications := Some (orEmpty (medications patient))\<rparr>)
           (store s)\<rparr>"

definition savePatients :: "medication patient list \<Rightarrow> app \<Rightarrow> app" where
  "savePatients updatedPatients s =
     (if \<not> db s then s
      else s\<lparr>store := transaction (Clear # map Add updatedPatients) (store s)\<rparr>)"

text \<open>
  The empty forms. \<open>today\<close> is \<^verbatim>\<open>new Date().toISOString().split('T')[0]\<close>, read
  from the clock by the caller.
\<close>

definition blankPatient :: "string \<Rightarrow> medication patient" where
  "blankPatient today =
     \<lparr>id_p = [], name = [], mobile = [], place = [], visitedDate = today,
      nextVisitDate = [], medications = Some [], notes_p = Some []\<rparr>"

definition blankMedication :: "string \<Rightarrow> medication" where
  "blankMedication today = \<lparr>id_m = [], description = [], date = today\<rparr>"

text \<open>
  The component as it is mounted, over the object store \<open>st\<close> that an earlier
  session left, and \<^verbatim>\<open>request.onsuccess\<close> of opening the database.
\<close>

definition initialApp :: "string \<Rightarrow> medication patient list \<Rightarrow> app" where
  "initialApp today st =
     \<lparr>patients = [], newPatient = blankPatient today, editingId = None,
      selectedPatient = None, newMedication = blankMedication today,
      backupConfig = \<lparr>enabled = False, interval = 60, lastBackup = 0, maxBackups = 5\<rparr>,
      backupHistory = [], db = False, store = st, savedConfig = None,
      savedHistory = None, downloads = []\<rparr>"

definition openDatabase :: "app \<Rightarrow> app" where
  "openDatabase s = loadPatients (s\<lparr>db := True\<rparr>)"

section \<open>Patient operations\<close>

text \<open>
  \<^verbatim>\<open>addPatient\<close>, with the reading \<open>now\<close> of \<^verbatim>\<open>Date.now()\<close>. The second component is
  the message of the \<^verbatim>\<open>alert\<close>, if one is shown. \<^verbatim>\<open>if (editingId)\<close> is false for
  \<^verbatim>\<open>null\<close> and for the empty string.
\<close>

definition addPatient :: "int \<Rightarrow> string \<Rightarrow> app \<Rightarrow> app \<times> string option" where
  "addPatient now today s =
     (if name (newPatient s) = [] \<or> mobile (newPatient s) = [] \<or> place (newPatient s) = []
      then (s, Some ''Please fill all fields.'')
      else
        let updatedPatients =
              (if editingId s \<noteq> None \<and> editingId s \<noteq> Some []
               then map (\<lambda>p. if Some (id_p p) = editingId s
                              then (newPatient s)\<lparr>id_p := the (editingId s),
                                     medications := Some (orEmpty (medications p))\<rparr>
                              else p) (patients s)
               else patients s @
                      [(newPatient s)\<lparr>id_p := toString now, medications := Some []\<rparr>])
        in ((savePatients updatedPatients (s\<lparr>patients := updatedPatients\<rparr>))
              \<lparr>editingId := None, newPatient := blankPatient today\<rparr>, None))"

text \<open>
  \<^verbatim>\<open>deletePatient\<close> and \<^verbatim>\<open>deleteMedication\<close>; \<open>confirmed\<close> is the answer to
  \<^verbatim>\<open>window.confirm\<close>. Reading \<^verbatim>\<open>medications.filter\<close> of a patient without
  \<^verbatim>\<open>medications\<close> throws a \<^verbatim>\<open>TypeError\<close>, which ends the handler: the updates made
  before it stand, the later ones are not made.
\<close>

definition deletePatient :: "bool \<Rightarrow> string \<Rightarrow> app \<Rightarrow> app" where
  "deletePatient confirmed patientId s =
     (if \<not> confirmed then s
      else
        let updatedPatients = filter (\<lambda>p. id_p p \<noteq> patientId) (patients s);
            s' = savePatients updatedPatients (s\<lparr>patients := updatedPatients\<rparr>)
        in (case selectedPatient s' of
              Some sp \<Rightarrow> if id_p sp = patientId then s'\<lparr>selectedPatient := None\<rparr> else s'
            | None \<Rightarrow> s'))"

definition deleteMedication :: "bool \<Rightarrow> string \<Rightarrow> string \<Rightarrow> app \<Rightarrow> app" where
  "deleteMedication confirmed patientId medicationId s =
     (if \<not> confirmed then s
      else if list_ex (\<lambda>p. id_p p = patientId \<and> medications p = None) (patients s) then s
      else
        let updatedPatients =
              map (\<lambda>p. if id_p p = patientId
                        then p\<lparr>medications :=
                                Some (filter (\<lambda>m. id_m m \<noteq> medicationId) (orEmpty (medications p)))\<rparr>
                        else p) (patients s);
            s' = savePatients updatedPatients (s\<lparr>patients := updatedPatients\<rparr>)
        in (case selectedPatient s' of
              Some sp \<Rightarrow>
                if id_p sp = patientId
                then (case medications sp of
                        None \<Rightarrow> s'
                      | Some ms \<Rightarrow>
                          s'\<lparr>selectedPatient :=
                               Some (sp\<lparr>medications :=
                                          Some (filter (\<lambda>m. id_m m \<noteq> medicationId) ms)\<rparr>)\<rparr>)
                else s'
            | None \<Rightarrow> s'))"

definition editPatient :: "medication patient \<Rightarrow> app \<Rightarrow> app" where
  "editPatient patient s =
     s\<lparr>newPatient := patient\<lparr>medications := Some (orEmpty (medications patient))\<rparr>,
       editingId := Some (id_p patient)\<rparr>"

definition cancelEdit :: "string \<Rightarrow> app \<Rightarrow> app" where
  "cancelEdit today s = s\<lparr>editingId := None, newPatient := blankPatient today\<rparr>"

definition handlePatientClick :: "medication patient \<Rightarrow> app \<Rightarrow> app" where
  "handlePatientClick patient s =
     s\<lparr>selectedPatient := Some (patient\<lparr>medications := Some (orEmpty (medications patient))\<rparr>)\<rparr>"

definition addMedication :: "int \<Rightarrow> string \<Rightarrow> app \<Rightarrow> app \<times> string option" where
  "addMedication now today s =
     (case selectedPatient s of
        None \<Rightarrow> (s, None)
      | Some sp \<Rightarrow>
          if description (newMedication s) = []
          then (s, Some ''Please enter medication description.'')
          else
            let medicationWithId = (newMedication s)\<lparr>id_m := toString now\<rparr>;
                updatedPatient =
                  sp\<lparr>medications := Some (orEmpty (medications sp) @ [medicationWithId])\<rparr>;
                updatedPatients =
                  map (\<lambda>p. if id_p p = id_p sp then updatedPatient else p) (patients s)
            in ((savePatients updatedPatients
                   (s\<lparr>patients := updatedPatients, selectedPatient := Some updatedPatient\<rparr>))
                  \<lparr>newMedication := blankMedication today\<rparr>, None))"

definition updateNextVisitDate :: "string \<Rightarrow> app \<Rightarrow> app" where
  "updateNextVisitDate d s =
     (case selectedPatient s of
        None \<Rightarrow> s
      | Some sp \<Rightarrow>
          let updatedPatient = sp\<lparr>nextVisitDate := d\<rparr>;
              updatedPatients =
                map (\<lambda>p. if id_p p = id_p sp then updatedPatient else p) (patients s)
          in savePatients updatedPatients
               (s\<lparr>patients := updatedPatients, selectedPatient := Some updatedPatient\<rparr>))"

text \<open>
  What a user can do with the patient list, the form and the details of the selected
  patient. A button of the list belongs to a patient of \<open>patients\<close>, given by its
  position; a delete button of the details belongs to a medication of the selected
  patient. An event for a button that is not there leaves the state as it is.
\<close>

datatype event =
    SetName string | SetMobile string | SetPlace string | SetVisitedDate string
  | SetNotes string
  | AddPatient int string
  | EditPatient nat
  | CancelEdit string
  | DeletePatient nat bool
  | HandlePatientClick nat
  | CloseDetails
  | SetDescription string | SetDate string
  | AddMedication int string
  | DeleteMedication nat bool
  | UpdateNextVisitDate string

fun step :: "event \<Rightarrow> app \<Rightarrow> app" where
  "step (SetName v) s = s\<lparr>newPatient := (newPatient s)\<lparr>name := v\<rparr>\<rparr>"
| "step (SetMobile v) s = s\<lparr>newPatient := (newPatient s)\<lparr>mobile := v\<rparr>\<rparr>"
| "step (SetPlace v) s = s\<lparr>newPatient := (newPatient s)\<lparr>place := v\<rparr>\<rparr>"
| "step (SetVisitedDate v) s = s\<lparr>newPatient := (newPatient s)\<lparr>visitedDate := v\<rparr>\<rparr>"
| "step (SetNotes v) s = s\<lparr>newPatient := (newPatient s)\<lparr>notes_p := Some v\<rparr>\<rparr>"
| "step (AddPatient now today) s = fst (addPatient now today s)"
| "step (EditPatient i) s =
     (if i < length (patients s) then editPatient (patients s ! i) s else s)"
| "step (CancelEdit today) s = cancelEdit today s"
| "step (DeletePatient i confirmed) s =
     (if i < length (patients s) then deletePatient confirmed (id_p (patients s ! i)) s
      else s)"
| "step (HandlePatientClick i) s =
     (if i < length (patients s) then handlePatientClick (patients s ! i) s else s)"
| "step CloseDetails s = s\<lparr>selectedPatient := None\<rparr>"
| "step (SetDescription v) s = s\<lparr>newMedication := (newMedication s)\<lparr>description := v\<rparr>\<rparr>"
| "step (SetDate v) s = s\<lparr>newMedication := (newMedication s)\<lparr>date := v\<rparr>\<rparr>"
| "step (AddMedication now today) s = fst (addMedication now today s)"
| "step (DeleteMedication j confirmed) s =
     (case selectedPatient s of
        None \<Rightarrow> s
      | Some sp \<Rightarrow>
          if j < length (orEmpty (medications sp))
          then deleteMedication confirmed (id_p sp) (id_m (orEmpty (medications sp) ! j)) s
          else s)"
| "step (UpdateNextVisitDate d) s = updateNextVisitDate d s"

fun run :: "event list \<Rightarrow> app \<Rightarrow> app" where
  "run [] s = s"
| "run (e # es) s = run es (step e s)"

text \<open>The clock readings that the events of a run take for new ids.\<close>

fun patientClock :: "event \<Rightarrow> int list" where
  "patientClock (AddPatient now today) = [now]"
| "patientClock e = []"

fun medicationClock :: "event \<Rightarrow> int list" where
  "medicationClock (AddMedication now today) = [now]"
| "medicationClock e = []"

section \<open>Backup and restore\<close>

text \<open>
  \<^verbatim>\<open>backupData\<close> and \<^verbatim>\<open>performAutomaticBackup\<close>, with the reading \<open>ts\<close> that
  \<^verbatim>\<open>request.onsuccess\<close> takes of \<^verbatim>\<open>Date.now()\<close>. \<open>isoDate\<close> is the platform's
  \<^verbatim>\<open>new Date(timestamp).toISOString().split('T')[0]\<close>.
\<close>

definition backupData :: "(int \<Rightarrow> string) \<Rightarrow> int \<Rightarrow> app \<Rightarrow> app" where
  "backupData isoDate ts s =
     (if \<not> db s then s
      else
        let data = store s;
            fname = ''patient-care-backup-'' @ isoDate ts @ ''.json'';
            newHistory =
              \<lparr>timestamp = ts, filename = fname\<rparr> #
                slice0 (backupHistory s) (maxBackups (backupConfig s) - 1)
        in s\<lparr>downloads := downloads s @ [(fname, stringify data)],
             backupHistory := newHistory,
             backupConfig := (backupConfig s)\<lparr>lastBackup := ts\<rparr>\<rparr>)"

definition performAutomaticBackup :: "(int \<Rightarrow> string) \<Rightarrow> int \<Rightarrow> app \<Rightarrow> app" where
  "performAutomaticBackup isoDate ts s =
     (if \<not> db s then s
      else
        let data = store s;
            fname = ''patient-care-backup-'' @ isoDate ts @ ''.json'';
            newHistory =
              \<lparr>timestamp = ts, filename = fname\<rparr> #
                slice0 (backupHistory s) (maxBackups (backupConfig s) - 1)
        in s\<lparr>downloads := downloads s @ [(fname, stringify data)],
             backupHistory := newHistory,
             backupConfig := (backupConfig s)\<lparr>lastBackup := ts\<rparr>\<rparr>)"

text \<open>
  \<^verbatim>\<open>restoreData\<close> on the chosen file, if any. \<^verbatim>\<open>JSON.parse\<close> throws before the
  transaction is opened. \<^verbatim>\<open>data.forEach\<close> is not a function when \<open>data\<close> is not an
  array, and \<^verbatim>\<open>store.add\<close> throws a \<^verbatim>\<open>DataError\<close> on a value without a key; both
  are thrown after \<^verbatim>\<open>store.clear()\<close> and are caught by the handler, so the requests
  placed before them are carried out when the transaction completes.
\<close>

fun addEach :: "item list \<Rightarrow> request list \<times> bool" where
  "addEach [] = ([], True)"
| "addEach (Keyless # xs) = ([], False)"
| "addEach (Record p # xs) = (case addEach xs of (rs, ok) \<Rightarrow> (Add p # rs, ok))"

definition restoreData :: "fileContent option \<Rightarrow> app \<Rightarrow> app \<times> string option" where
  "restoreData file s =
     (case file of
        None \<Rightarrow> (s, None)
      | Some content \<Rightarrow>
          if \<not> db s then (s, None)
          else
            (case content of
               Malformed \<Rightarrow>
                 (s, Some ''Error restoring data. Please check the backup file format.'')
             | NotArray \<Rightarrow>
                 (s\<lparr>store := transaction [Clear] (store s)\<rparr>,
                  Some ''Error restoring data. Please check the backup file format.'')
             | ArrayOf data \<Rightarrow>
                 (case addEach data of
                    (rs, ok) \<Rightarrow>
                      if ok
                      then (loadPatients (s\<lparr>store := transaction (Clear # rs) (store s)\<rparr>),
                            Some ''Data restored successfully!'')
                      else (s\<lparr>store := transaction (Clear # rs) (store s)\<rparr>,
                            Some ''Error restoring data. Please check the backup file format.''))))"

section \<open>The backup schedule and its settings\<close>

text \<open>
  The timer exists only while \<open>enabled\<close> holds. A tick reads the clock (\<open>now\<close>) in
  \<^verbatim>\<open>checkAndBackup\<close>; the backup it starts reads the clock again (\<open>ts\<close>) when the
  records have been fetched.
\<close>

definition checkAndBackup :: "(int \<Rightarrow> string) \<Rightarrow> int \<Rightarrow> int \<Rightarrow> app \<Rightarrow> app" where
  "checkAndBackup isoDate now ts s =
     (let timeSinceLastBackup = now - lastBackup (backupConfig s);
          intervalInMs = interval (backupConfig s) * 60 * 1000
      in if timeSinceLastBackup \<ge> intervalInMs then performAutomaticBackup isoDate ts s
         else s)"

definition tick :: "(int \<Rightarrow> string) \<Rightarrow> int \<Rightarrow> int \<Rightarrow> app \<Rightarrow> app" where
  "tick isoDate now ts s =
     (if \<not> enabled (backupConfig s) then s else checkAndBackup isoDate now ts s)"

definition toggleAutomaticBackup :: "int \<Rightarrow> app \<Rightarrow> app" where
  "toggleAutomaticBackup now s =
     s\<lparr>backupConfig :=
         (backupConfig s)
           \<lparr>enabled := \<not> enabled (backupConfig s),
            lastBackup :=
              (if \<not> enabled (backupConfig s) then now else lastBackup (backupConfig s))\<rparr>\<rparr>"

definition updateBackupInterval :: "int \<Rightarrow> app \<Rightarrow> app" where
  "updateBackupInterval minutes s =
     s\<lparr>backupConfig := (backupConfig s)\<lparr>interval := minutes\<rparr>\<rparr>"

text \<open>The \<^verbatim>\<open>onChange\<close> of the field "Maximum Backups to Keep".\<close>

definition setMaxBackups :: "int \<Rightarrow> app \<Rightarrow> app" where
  "setMaxBackups n s = s\<lparr>backupConfig := (backupConfig s)\<lparr>maxBackups := n\<rparr>\<rparr>"

text \<open>
  The effect that runs after every change of the settings or of the history and
  writes both to \<^verbatim>\<open>localStorage\<close>.
\<close>

definition saveBackupSettings :: "app \<Rightarrow> app" where
  "saveBackupSettings s =
     s\<lparr>savedConfig := Some (backupConfig s), savedHistory := Some (backupHistory s)\<rparr>"

text \<open>
  A backup takes two steps in the code. The handler (\<^verbatim>\<open>backupData\<close> or
  \<^verbatim>\<open>performAutomaticBackup\<close>, whose bodies are the same) checks the database handle
  and places the \<^verbatim>\<open>getAll\<close> request, in a read-only transaction that fixes the
  records it reads. \<^verbatim>\<open>request.onsuccess\<close> runs later. It is a closure of the render
  in which the handler ran: the \<^verbatim>\<open>backupHistory\<close> and the \<^verbatim>\<open>maxBackups\<close> it reads are
  those of that moment, and \<^verbatim>\<open>setBackupHistory(newHistory)\<close> installs a list built
  from them, whereas \<^verbatim>\<open>lastBackup\<close> is set by a function of the settings of the
  moment (\<^verbatim>\<open>setBackupConfig(prev => ...)\<close>). \<open>backupData\<close> and
  \<open>performAutomaticBackup\<close> above are the backup whose request succeeds before
  anything else happens.
\<close>

record backupRequest =
  heldHistory :: "backupEntry list"
  heldMaxBackups :: int
  heldData :: "medication patient list"

definition placeRequest :: "app \<Rightarrow> backupRequest option" where
  "placeRequest s =
     (if \<not> db s then None
      else Some \<lparr>heldHistory = backupHistory s,
                 heldMaxBackups = maxBackups (backupConfig s),
                 heldData = store s\<rparr>)"

definition onsuccess :: "(int \<Rightarrow> string) \<Rightarrow> int \<Rightarrow> backupRequest \<Rightarrow> app \<Rightarrow> app" where
  "onsuccess isoDate ts r s =
     (let data = heldData r;
          fname = ''patient-care-backup-'' @ isoDate ts @ ''.json'';
          newHistory =
            \<lparr>timestamp = ts, filename = fname\<rparr> #
              slice0 (heldHistory r) (heldMaxBackups r - 1)
      in s\<lparr>downloads := downloads s @ [(fname, stringify data)],
           backupHistory := newHistory,
           backupConfig := (backupConfig s)\<lparr>lastBackup := ts\<rparr>\<rparr>)"

text \<open>
  The backup events: a backup is started (the button "Backup Now", or a tick that
  finds a backup due), and the oldest request that is still pending succeeds, at
  the clock reading its callback takes. The second component of the state is the
  pending requests, oldest first.
\<close>

datatype backupEvent = Begin | Success int

fun backupStep ::
  "(int \<Rightarrow> string) \<Rightarrow> backupEvent \<Rightarrow> app \<times> backupRequest list \<Rightarrow> app \<times> backupRequest list"
  where
  "backupStep isoDate Begin (s, pending) =
     (case placeRequest s of None \<Rightarrow> (s, pending) | Some r \<Rightarrow> (s, pending @ [r]))"
| "backupStep isoDate (Success ts) (s, []) = (s, [])"
| "backupStep isoDate (Success ts) (s, r # pending) = (onsuccess isoDate ts r s, pending)"

fun backupSteps ::
  "(int \<Rightarrow> string) \<Rightarrow> backupEvent list \<Rightarrow> app \<times> backupRequest list
     \<Rightarrow> app \<times> backupRequest list" where
  "backupSteps isoDate [] c = c"
| "backupSteps isoDate (e # es) c = backupSteps isoDate es (backupStep isoDate e c)"

section \<open>The component that keeps its patients in \<^verbatim>\<open>localStorage\<close>\<close>

text \<open>
  The earlier component (\<^verbatim>\<open>src/components/PatientManagement.tsx\<close>) has no database
  and no \<^verbatim>\<open>notes\<close>: it writes the whole list, as JSON, to the item \<^verbatim>\<open>patients\<close> of
  \<^verbatim>\<open>localStorage\<close> (\<open>None\<close> while there is no such item). Its load and its
  \<^verbatim>\<open>addPatient\<close> do not look into a medication.
\<close>

record 'm app_ls =
  patients_ls :: "'m patient list"
  newPatient_ls :: "'m patient"
  editingId_ls :: "string option"
  savedPatients :: "'m patient list option"

definition blankPatient_ls :: "string \<Rightarrow> 'm patient" where
  "blankPatient_ls today =
     \<lparr>id_p = [], name = [], mobile = [], place = [], visitedDate = today,
      nextVisitDate = [], medications = Some [], notes_p = None\<rparr>"

definition loadPatients_ls :: "'m app_ls \<Rightarrow> 'm app_ls" where
  "loadPatients_ls s =
     (case savedPatients s of
        None \<Rightarrow> s
      | Some parsedPatients \<Rightarrow>
          s\<lparr>patients_ls :=
              map (\<lambda>patient. patient\<lparr>medications := Some (orEmpty (medications patient))\<rparr>)
                parsedPatients\<rparr>)"

definition addPatient_ls :: "int \<Rightarrow> string \<Rightarrow> 'm app_ls \<Rightarrow> 'm app_ls \<times> string option" where
  "addPatient_ls now today s =
     (if name (newPatient_ls s) = [] \<or> mobile (newPatient_ls s) = []
         \<or> place (newPatient_ls s) = []
      then (s, Some ''Please fill all fields.'')
      else if editingId_ls s \<noteq> None \<and> editingId_ls s \<noteq> Some []
      then
        let updatedPatients =
              map (\<lambda>p. if Some (id_p p) = editingId_ls s
                        then (newPatient_ls s)\<lparr>id_p := the (editingId_ls s),
                               medications := Some (orEmpty (medications p))\<rparr>
                        else p) (patients_ls s)
        in (s\<lparr>patients_ls := updatedPatients, savedPatients := Some updatedPatients,
               editingId_ls := None, newPatient_ls := blankPatient_ls today\<rparr>, None)
      else
        let patientWithId = (newPatient_ls s)\<lparr>id_p := toString now, medications := Some []\<rparr>;
            updatedPatients = patients_ls s @ [patientWithId]
        in (s\<lparr>patients_ls := updatedPatients, savedPatients := Some updatedPatients,
               newPatient_ls := blankPatient_ls today\<rparr>, None))"

section \<open>Notions used by the properties\<close>

text \<open>
  \<open>editedFrom draft p p'\<close>: the patient \<open>p'\<close> has the identity and the medications of
  \<open>p\<close> and the other fields of the form \<open>draft\<close>.
\<close>

definition editedFrom :: "'m patient \<Rightarrow> 'm patient \<Rightarrow> 'm patient \<Rightarrow> bool" where
  "editedFrom draft p p' \<longleftrightarrow>
     id_p p' = id_p p
     \<and> orEmpty (medications p') = orEmpty (medications p)
     \<and> (medications p \<noteq> None \<longrightarrow> medications p' = medications p)
     \<and> name p' = name draft \<and> mobile p' = mobile draft \<and> place p' = place draft
     \<and> visitedDate p' = visitedDate draft \<and> nextVisitDate p' = nextVisitDate draft
     \<and> notes_p p' = notes_p draft"

text \<open>
  \<open>loadedFrom r p\<close>: the patient \<open>p\<close> is the stored record \<open>r\<close> with an empty list of
  medications where \<open>r\<close> has none, and with every other field, \<^verbatim>\<open>notes\<close> too, as
  it is stored.
\<close>

definition loadedFrom :: "'m patient \<Rightarrow> 'm patient \<Rightarrow> bool" where
  "loadedFrom r p \<longleftrightarrow>
     (case medications r of None \<Rightarrow> medications p = Some [] | Some ms \<Rightarrow> medications p = Some ms)
     \<and> notes_p p = notes_p r
     \<and> id_p p = id_p r \<and> name p = name r \<and> mobile p = mobile r \<and> place p = place r
     \<and> visitedDate p = visitedDate r \<and> nextVisitDate p = nextVisitDate r"

text \<open>
  \<open>idsDistinct s\<close>: the ids of the patients in memory are distinct and not empty, and
  within each patient the ids of the medications are distinct.
\<close>

definition idsDistinct :: "app \<Rightarrow> bool" where
  "idsDistinct s \<longleftrightarrow>
     distinct (map id_p (patients s))
     \<and> (\<forall>p \<in> set (patients s).
           id_p p \<noteq> [] \<and> distinct (map id_m (orEmpty (medications p))))"

text \<open>
  The invariant behind it: the ids are the numerals of clock readings that have been
  taken, \<open>P\<close> for patients and \<open>M\<close> for medications, and the selected patient, a copy
  that can be older than the list, has distinct medication ids too.
\<close>

definition medsFrom :: "int set \<Rightarrow> medication patient \<Rightarrow> bool" where
  "medsFrom M p \<longleftrightarrow>
     distinct (map id_m (orEmpty (medications p)))
     \<and> (\<forall>m \<in> set (orEmpty (medications p)). id_m m \<in> toString ` M)"

definition idsFrom :: "int set \<Rightarrow> int set \<Rightarrow> app \<Rightarrow> bool" where
  "idsFrom P M s \<longleftrightarrow>
     distinct (map id_p (patients s))
     \<and> (\<forall>p \<in> set (patients s). id_p p \<in> toString ` P \<and> medsFrom M p)
     \<and> (\<forall>sp. selectedPatient s = Some sp \<longrightarrow> medsFrom M sp)"

text \<open>The object store holds its records in ascending order of their keys, one per key.\<close>

definition storeOrdered :: "medication patient list \<Rightarrow> bool" where
  "storeOrdered st \<longleftrightarrow> sorted (map id_p st) \<and> distinct (map id_p st)"

section \<open>Example data\<close>

definition ashwagandha :: medication where
  "ashwagandha = \<lparr>id_m = ''7'', description = ''Ashwagandha 500mg'', date = ''2025-01-01''\<rparr>"

definition asha :: "medication patient" where
  "asha = \<lparr>id_p = ''5'', name = ''Asha'', mobile = ''9999999999'', place = ''Kochi'',
            visitedDate = ''2025-01-01'', nextVisitDate = [],
            medications = Some [ashwagandha], notes_p = Some []\<rparr>"

text \<open>A patient as the earliest schema wrote it: no medications, no notes.\<close>

definition ravi :: "medication patient" where
  "ravi = \<lparr>id_p = ''3'', name = ''Ravi'', mobile = ''8888888888'', place = ''Kollam'',
            visitedDate = ''2024-06-01'', nextVisitDate = [],
            medications = None, notes_p = None\<rparr>"

text \<open>A first run, a later run over a store of two patients, and the same for the earlier component.\<close>

definition freshApp :: app where
  "freshApp = openDatabase (initialApp ''2025-01-01'' [])"

definition clinicApp :: app where
  "clinicApp = openDatabase (initialApp ''2025-01-01'' [ravi, asha])"

definition clinicApp_ls :: "medication app_ls" where
  "clinicApp_ls =
     loadPatients_ls
       \<lparr>patients_ls = [], newPatient_ls = blankPatient_ls ''2025-01-01'',
        editingId_ls = None, savedPatients = Some [ravi, asha]\<rparr>"

text \<open>
  The schedule switched on at the clock reading 1000000 with an interval of one
  minute, and a calendar that knows one day only.
\<close>

definition armedApp :: app where
  "armedApp = updateBackupInterval 1 (toggleAutomaticBackup 1000000 freshApp)"

definition oneDay :: "int \<Rightarrow> string" where
  "oneDay ts = ''2025-01-01''"

text \<open>
  Asha is added and gets two medications, each at a clock reading of its own; and
  two patients are added at the same clock reading.
\<close>

definition threeAdds :: "event list" where
  "threeAdds =
     [SetName ''Asha'', SetMobile ''9999999999'', SetPlace ''Kochi'',
      AddPatient 5 ''2025-01-01'',
      HandlePatientClick 0,
      SetDescription ''Ashwagandha 500mg'', AddMedication 7 ''2025-01-01'',
      SetDescription ''Triphala'', AddMedication 8 ''2025-01-01'']"

definition sameClock :: "event list" where
  "sameClock =
     [SetName ''Asha'', SetMobile ''9999999999'', SetPlace ''Kochi'',
      AddPatient 5 ''2025-01-01'',
      SetName ''Ravi'', SetMobile ''8888888888'', SetPlace ''Kollam'',
      AddPatient 5 ''2025-01-01'']"

section \<open>Properties\<close>

subsection \<open>The example states, written out\<close>

lemma freshApp_state:
  "freshApp =
     \<lparr>patients = [], newPatient = blankPatient ''2025-01-01'', editingId = None,
      selectedPatient = None, newMedication = blankMedication ''2025-01-01'',
      backupConfig = \<lparr>enabled = False, interval = 60, lastBackup = 0, maxBackups = 5\<rparr>,
      backupHistory = [], db = True, store = [], savedConfig = None,
      savedHistory = None, downloads = []\<rparr>"
  by (simp add: freshApp_def openDatabase_def initialApp_def loadPatients_def)

lemma clinicApp_state:
  "clinicApp =
     \<lparr>patients = [ravi\<lparr>medications := Some []\<rparr>, asha],
      newPatient = blankPatient ''2025-01-01'', editingId = None,
      selectedPatient = None, newMedication = blankMedication ''2025-01-01'',
      backupConfig = \<lparr>enabled = False, interval = 60, lastBackup = 0, maxBackups = 5\<rparr>,
      backupHistory = [], db = True, store = [ravi, asha], savedConfig = None,
      savedHistory = None, downloads = []\<rparr>"
  by (simp add: clinicApp_def openDatabase_def initialApp_def loadPatients_def orEmpty_def
      ravi_def asha_def)

lemma clinicApp_ls_state:
  "clinicApp_ls =
     \<lparr>patients_ls = [ravi\<lparr>medications := Some []\<rparr>, asha],
      newPatient_ls = blankPatient_ls ''2025-01-01'',
      editingId_ls = None, savedPatients = Some [ravi, asha]\<rparr>"
  by (simp add: clinicApp_ls_def loadPatients_ls_def orEmpty_def ravi_def asha_def)

subsection \<open>Validation of a new patient\<close>

text \<open>
  C9. When the name, the mobile number or the place of the form is empty,
  \<^verbatim>\<open>addPatient\<close> shows the message "Please fill all fields." and returns at once:
  the whole state is as before, so the patients in memory and the persisted patients
  (the object store, and the \<^verbatim>\<open>localStorage\<close> item of the earlier component) are
  unchanged.
\<close>

theorem addPatient_validation:
  "(name (newPatient s) = [] \<or> mobile (newPatient s) = [] \<or> place (newPatient s) = [] \<longrightarrow>
      addPatient now today s = (s, Some ''Please fill all fields.'')
      \<and> patients (fst (addPatient now today s)) = patients s
      \<and> store (fst (addPatient now today s)) = store s)
   \<and> (name (newPatient_ls t) = [] \<or> mobile (newPatient_ls t) = []
         \<or> place (newPatient_ls t) = [] \<longrightarrow>
      addPatient_ls now today t = (t, Some ''Please fill all fields.'')
      \<and> patients_ls (fst (addPatient_ls now today t)) = patients_ls t
      \<and> savedPatients (fst (addPatient_ls now today t)) = savedPatients t)"
  by (simp add: addPatient_def addPatient_ls_def)

theorem addPatient_validation_witness:
  "name (newPatient freshApp) = []
   \<and> addPatient 5 ''2025-01-01'' freshApp = (freshApp, Some ''Please fill all fields.'')
   \<and> store (fst (addPatient 5 ''2025-01-01'' freshApp)) = []
   \<and> name (newPatient_ls clinicApp_ls) = []
   \<and> addPatient_ls 5 ''2025-01-01'' clinicApp_ls
       = (clinicApp_ls, Some ''Please fill all fields.'')
   \<and> savedPatients (fst (addPatient_ls 5 ''2025-01-01'' clinicApp_ls)) = Some [ravi, asha]"
proof -
  have h1: "name (newPatient freshApp) = []"
    by (simp add: freshApp_state blankPatient_def)
  have h2: "name (newPatient_ls clinicApp_ls) = []"
    by (simp add: clinicApp_ls_state blankPatient_ls_def)
  have s1: "store freshApp = []"
    by (simp add: freshApp_state)
  have s2: "savedPatients clinicApp_ls = Some [ravi, asha]"
    by (simp add: clinicApp_ls_state)
  from addPatient_validation [of freshApp 5 "''2025-01-01''" clinicApp_ls] h1 h2 s1 s2
  show ?thesis by simp
qed

subsection \<open>Editing a patient keeps its medications\<close>

text \<open>
  C10. When the form is submitted while a patient is being edited (\<open>editingId\<close> is
  an id and the three required fields are filled), the list keeps its length; every
  patient with that id keeps its id and its medications, whatever the medications of
  the form are, and takes name, mobile, place, visited date, next-visit date and
  notes from the form; every other patient is unchanged. A patient that had no
  \<^verbatim>\<open>medications\<close> property gets the empty list. The same holds for the earlier
  component.
\<close>

theorem edit_keeps_medications:
  "(name (newPatient s) \<noteq> [] \<and> mobile (newPatient s) \<noteq> [] \<and> place (newPatient s) \<noteq> []
      \<and> editingId s = Some eid \<and> eid \<noteq> [] \<longrightarrow>
      length (patients (fst (addPatient now today s))) = length (patients s)
      \<and> (\<forall>i < length (patients s).
            if id_p (patients s ! i) = eid
            then editedFrom (newPatient s) (patients s ! i)
                   (patients (fst (addPatient now today s)) ! i)
            else patients (fst (addPatient now today s)) ! i = patients s ! i))
   \<and> (name (newPatient_ls t) \<noteq> [] \<and> mobile (newPatient_ls t) \<noteq> []
         \<and> place (newPatient_ls t) \<noteq> []
         \<and> editingId_ls t = Some eid \<and> eid \<noteq> [] \<longrightarrow>
      length (patients_ls (fst (addPatient_ls now today t))) = length (patients_ls t)
      \<and> (\<forall>i < length (patients_ls t).
            if id_p (patients_ls t ! i) = eid
            then editedFrom (newPatient_ls t) (patients_ls t ! i)
                   (patients_ls (fst (addPatient_ls now today t)) ! i)
            else patients_ls (fst (addPatient_ls now today t)) ! i = patients_ls t ! i))"
  by (auto simp: addPatient_def addPatient_ls_def savePatients_def editedFrom_def
      orEmpty_def Let_def)

text \<open>
  Asha is edited: the form is opened on her, the name is changed and the medications
  of the form are emptied; she keeps her one medication.
\<close>

theorem edit_keeps_medications_witness:
  "name (newPatient (step (SetName ''Asha K'') (step (EditPatient 1) clinicApp))) \<noteq> []
   \<and> editingId (step (SetName ''Asha K'') (step (EditPatient 1) clinicApp)) = Some ''5''
   \<and> medications
        (patients (fst (addPatient 9 ''2025-01-02''
           (step (SetName ''Asha K'') (step (EditPatient 1) clinicApp)))) ! 1)
       = Some [ashwagandha]
   \<and> name
        (patients (fst (addPatient 9 ''2025-01-02''
           (step (SetName ''Asha K'') (step (EditPatient 1) clinicApp)))) ! 1)
       = ''Asha K''
   \<and> patients (fst (addPatient 9 ''2025-01-02''
           (step (SetName ''Asha K'') (step (EditPatient 1) clinicApp)))) ! 0
       = ravi\<lparr>medications := Some []\<rparr>
   \<and> medications
        (patients_ls (fst (addPatient_ls 9 ''2025-01-02''
           (clinicApp_ls\<lparr>newPatient_ls := asha\<lparr>name := ''Asha K'', medications := Some []\<rparr>,
                          editingId_ls := Some ''5''\<rparr>))) ! 1)
       = Some [ashwagandha]"
proof -
  define s where "s = step (SetName ''Asha K'') (step (EditPatient 1) clinicApp)"
  define t where
    "t = clinicApp_ls\<lparr>newPatient_ls := asha\<lparr>name := ''Asha K'', medications := Some []\<rparr>,
                       editingId_ls := Some ''5''\<rparr>"
  have s: "newPatient s = asha\<lparr>name := ''Asha K''\<rparr>" "editingId s = Some ''5''"
    "patients s = [ravi\<lparr>medications := Some []\<rparr>, asha]"
    by (simp_all add: s_def clinicApp_state editPatient_def asha_def orEmpty_def)
  have t: "newPatient_ls t = asha\<lparr>name := ''Asha K'', medications := Some []\<rparr>"
    "editingId_ls t = Some ''5''" "patients_ls t = [ravi\<lparr>medications := Some []\<rparr>, asha]"
    by (simp_all add: t_def clinicApp_ls_state)
  have ids: "id_p asha = ''5''" "id_p ravi \<noteq> ''5''"
    "name asha \<noteq> []" "mobile asha \<noteq> []" "place asha \<noteq> []"
    "medications asha = Some [ashwagandha]"
    by (simp_all add: asha_def ravi_def)
  have hs: "name (newPatient s) \<noteq> [] \<and> mobile (newPatient s) \<noteq> []
      \<and> place (newPatient s) \<noteq> [] \<and> editingId s = Some ''5'' \<and> ''5'' \<noteq> ([]::string)"
    by (simp add: s ids)
  have ht: "name (newPatient_ls t) \<noteq> [] \<and> mobile (newPatient_ls t) \<noteq> []
      \<and> place (newPatient_ls t) \<noteq> [] \<and> editingId_ls t = Some ''5'' \<and> ''5'' \<noteq> ([]::string)"
    by (simp add: t ids)
  note inst = edit_keeps_medications [of s "''5''" 9 "''2025-01-02''" t]
  from inst hs have A:
    "\<forall>i < length (patients s).
       if id_p (patients s ! i) = ''5''
       then editedFrom (newPatient s) (patients s ! i)
              (patients (fst (addPatient 9 ''2025-01-02'' s)) ! i)
       else patients (fst (addPatient 9 ''2025-01-02'' s)) ! i = patients s ! i"
    by blast
  from inst ht have B:
    "\<forall>i < length (patients_ls t).
       if id_p (patients_ls t ! i) = ''5''
       then editedFrom (newPatient_ls t) (patients_ls t ! i)
              (patients_ls (fst (addPatient_ls 9 ''2025-01-02'' t)) ! i)
       else patients_ls (fst (addPatient_ls 9 ''2025-01-02'' t)) ! i = patients_ls t ! i"
    by blast
  from A [rule_format, of 1] have a1:
    "editedFrom (newPatient s) (patients s ! 1) (patients (fst (addPatient 9 ''2025-01-02'' s)) ! 1)"
    by (simp add: s(3) ids)
  from A [rule_format, of 0] have a0:
    "patients (fst (addPatient 9 ''2025-01-02'' s)) ! 0 = patients s ! 0"
    by (simp add: s(3) ids)
  from B [rule_format, of 1] have b1:
    "editedFrom (newPatient_ls t) (patients_ls t ! 1)
       (patients_ls (fst (addPatient_ls 9 ''2025-01-02'' t)) ! 1)"
    by (simp add: t(3) ids)
  from a1 a0 b1 hs show ?thesis
    unfolding s_def [symmetric] t_def [symmetric]
    by (simp add: editedFrom_def s t ids)
qed

subsection \<open>Normalization after load\<close>

text \<open>
  C6, as the code has it. Every record that is loaded, from the object store or from
  the \<^verbatim>\<open>localStorage\<close> item of the earlier component, is exposed with an empty
  list of medications where the stored record has no \<^verbatim>\<open>medications\<close>, and with
  every other field as it is stored: a record stored without \<^verbatim>\<open>notes\<close> is exposed
  without \<^verbatim>\<open>notes\<close>, no empty string is put in.
\<close>

theorem load_fills_medications:
  "length (patients (loadPatients s)) = length (store s)
   \<and> (\<forall>i < length (store s). loadedFrom (store s ! i) (patients (loadPatients s) ! i))
   \<and> (\<forall>rs. savedPatients t = Some rs \<longrightarrow>
         length (patients_ls (loadPatients_ls t)) = length rs
         \<and> (\<forall>i < length rs. loadedFrom (rs ! i) (patients_ls (loadPatients_ls t) ! i)))"
  by (auto simp: loadPatients_def loadPatients_ls_def loadedFrom_def orEmpty_def
      split: option.splits)

theorem load_fills_medications_witness:
  "medications (patients (loadPatients (clinicApp\<lparr>patients := []\<rparr>)) ! 0) = Some []
   \<and> notes_p (patients (loadPatients (clinicApp\<lparr>patients := []\<rparr>)) ! 0) = None
   \<and> medications (patients (loadPatients (clinicApp\<lparr>patients := []\<rparr>)) ! 1) = Some [ashwagandha]
   \<and> medications (patients_ls (loadPatients_ls (clinicApp_ls\<lparr>patients_ls := []\<rparr>)) ! 0)
       = Some []"
proof -
  define s where "s = clinicApp\<lparr>patients := []\<rparr>"
  define t where "t = clinicApp_ls\<lparr>patients_ls := []\<rparr>"
  have s: "store s = [ravi, asha]"
    by (simp add: s_def clinicApp_state)
  have t: "savedPatients t = Some [ravi, asha]"
    by (simp add: t_def clinicApp_ls_state)
  note inst = load_fills_medications [of s t]
  from inst have A: "\<forall>i < length (store s). loadedFrom (store s ! i) (patients (loadPatients s) ! i)"
    by blast
  from inst t have B:
    "\<forall>i < length [ravi, asha]. loadedFrom ([ravi, asha] ! i) (patients_ls (loadPatients_ls t) ! i)"
    by blast
  from A [rule_format, of 0] A [rule_format, of 1] have a:
    "loadedFrom ravi (patients (loadPatients s) ! 0)"
    "loadedFrom asha (patients (loadPatients s) ! 1)"
    by (simp_all add: s)
  from B [rule_format, of 0] have b: "loadedFrom ravi (patients_ls (loadPatients_ls t) ! 0)"
    by simp
  from a b show ?thesis
    unfolding s_def [symmetric] t_def [symmetric]
    by (simp add: loadedFrom_def ravi_def asha_def)
qed

text \<open>
  The claim as it is written fails: Ravi is stored without \<^verbatim>\<open>notes\<close>, and after the
  load he is exposed without \<^verbatim>\<open>notes\<close>, not with the empty string.
\<close>

theorem load_leaves_notes_absent:
  "store clinicApp ! 0 = ravi
   \<and> notes_p ravi = None
   \<and> patients (loadPatients clinicApp) ! 0 = ravi\<lparr>medications := Some []\<rparr>
   \<and> notes_p (patients (loadPatients clinicApp) ! 0) \<noteq> Some []"
  by (simp add: clinicApp_state loadPatients_def orEmpty_def ravi_def)

subsection \<open>Switching the schedule on and off\<close>

text \<open>
  C8. Switching the schedule on sets \<open>lastBackup\<close> to the clock reading of the
  moment, so that a tick of the timer does no backup before a full interval has
  passed since then; switching it off leaves \<open>lastBackup\<close> as it is.
\<close>

theorem toggle_arms_from_now:
  "(\<not> enabled (backupConfig s) \<longrightarrow>
      enabled (backupConfig (toggleAutomaticBackup now s))
      \<and> lastBackup (backupConfig (toggleAutomaticBackup now s)) = now
      \<and> (\<forall>t ts. t - now < interval (backupConfig s) * 60 * 1000 \<longrightarrow>
             tick isoDate t ts (toggleAutomaticBackup now s) = toggleAutomaticBackup now s))
   \<and> (enabled (backupConfig s) \<longrightarrow>
      \<not> enabled (backupConfig (toggleAutomaticBackup now s))
      \<and> lastBackup (backupConfig (toggleAutomaticBackup now s)) = lastBackup (backupConfig s))"
  by (simp add: toggleAutomaticBackup_def tick_def checkAndBackup_def)

theorem toggle_arms_from_now_witness:
  "\<not> enabled (backupConfig freshApp)
   \<and> enabled (backupConfig (toggleAutomaticBackup 1000 freshApp))
   \<and> lastBackup (backupConfig (toggleAutomaticBackup 1000 freshApp)) = 1000
   \<and> tick oneDay 61000 61002 (toggleAutomaticBackup 1000 freshApp)
       = toggleAutomaticBackup 1000 freshApp
   \<and> \<not> enabled (backupConfig (toggleAutomaticBackup 5000 (toggleAutomaticBackup 1000 freshApp)))
   \<and> lastBackup (backupConfig (toggleAutomaticBackup 5000 (toggleAutomaticBackup 1000 freshApp)))
       = 1000"
proof -
  have off: "\<not> enabled (backupConfig freshApp)" "interval (backupConfig freshApp) = 60"
    by (simp_all add: freshApp_state)
  note on = toggle_arms_from_now [of freshApp 1000 oneDay]
  from on off have armed: "enabled (backupConfig (toggleAutomaticBackup 1000 freshApp))"
    and last: "lastBackup (backupConfig (toggleAutomaticBackup 1000 freshApp)) = 1000"
    and quiet: "\<forall>t ts. t - 1000 < interval (backupConfig freshApp) * 60 * 1000 \<longrightarrow>
        tick oneDay t ts (toggleAutomaticBackup 1000 freshApp)
          = toggleAutomaticBackup 1000 freshApp"
    by blast+
  from quiet [rule_format, of 61000 61002] off
  have still: "tick oneDay 61000 61002 (toggleAutomaticBackup 1000 freshApp)
       = toggleAutomaticBackup 1000 freshApp"
    by simp
  from toggle_arms_from_now [of "toggleAutomaticBackup 1000 freshApp" 5000 oneDay] armed last
  have "\<not> enabled (backupConfig (toggleAutomaticBackup 5000 (toggleAutomaticBackup 1000 freshApp)))
    \<and> lastBackup (backupConfig (toggleAutomaticBackup 5000 (toggleAutomaticBackup 1000 freshApp)))
       = 1000"
    by simp
  with off armed last still show ?thesis by simp
qed

subsection \<open>The tick of the timer\<close>

text \<open>
  C3. While the schedule is on and the database is open, a tick at the clock reading
  \<open>now\<close> hands a file to the browser exactly when
  \<open>now - lastBackup \<ge> interval * 60000\<close>. It is then one backup: one file with the
  records of the store, \<open>lastBackup\<close> set to the reading \<open>ts\<close> that the backup takes
  of the clock when the records have been fetched, and one entry put at the head of
  the history. Otherwise the tick changes nothing. In particular, with an interval
  of one minute and \<open>lastBackup = now - 61000\<close>, a tick whose backup reads the clock
  at \<open>now\<close> too makes one file, sets \<open>lastBackup\<close> to \<open>now\<close> and puts one entry at
  the head of the history.
\<close>

theorem tick_backs_up_when_due:
  "enabled (backupConfig s) \<and> db s \<longrightarrow>
     (downloads (tick isoDate now ts s) \<noteq> downloads s
        \<longleftrightarrow> now - lastBackup (backupConfig s) \<ge> interval (backupConfig s) * 60000)
     \<and> (now - lastBackup (backupConfig s) \<ge> interval (backupConfig s) * 60000 \<longrightarrow>
          tick isoDate now ts s = performAutomaticBackup isoDate ts s
          \<and> downloads (tick isoDate now ts s)
              = downloads s @ [(''patient-care-backup-'' @ isoDate ts @ ''.json'', stringify (store s))]
          \<and> lastBackup (backupConfig (tick isoDate now ts s)) = ts
          \<and> backupHistory (tick isoDate now ts s)
              = \<lparr>timestamp = ts, filename = ''patient-care-backup-'' @ isoDate ts @ ''.json''\<rparr>
                  # slice0 (backupHistory s) (maxBackups (backupConfig s) - 1))
     \<and> (now - lastBackup (backupConfig s) < interval (backupConfig s) * 60000 \<longrightarrow>
          tick isoDate now ts s = s)
     \<and> (interval (backupConfig s) = 1 \<and> lastBackup (backupConfig s) = now - 61000 \<longrightarrow>
          length (downloads (tick isoDate now now s)) = length (downloads s) + 1
          \<and> lastBackup (backupConfig (tick isoDate now now s)) = now
          \<and> backupHistory (tick isoDate now now s)
              = \<lparr>timestamp = now, filename = ''patient-care-backup-'' @ isoDate now @ ''.json''\<rparr>
                  # slice0 (backupHistory s) (maxBackups (backupConfig s) - 1))"
  by (simp add: tick_def checkAndBackup_def performAutomaticBackup_def Let_def)

lemma armedApp_state:
  "armedApp =
     \<lparr>patients = [], newPatient = blankPatient ''2025-01-01'', editingId = None,
      selectedPatient = None, newMedication = blankMedication ''2025-01-01'',
      backupConfig = \<lparr>enabled = True, interval = 1, lastBackup = 1000000, maxBackups = 5\<rparr>,
      backupHistory = [], db = True, store = [], savedConfig = None,
      savedHistory = None, downloads = []\<rparr>"
  by (simp add: armedApp_def freshApp_state updateBackupInterval_def toggleAutomaticBackup_def)

theorem tick_backs_up_when_due_witness:
  "enabled (backupConfig armedApp) \<and> db armedApp
   \<and> interval (backupConfig armedApp) = 1
   \<and> lastBackup (backupConfig armedApp) = 1061000 - 61000
   \<and> downloads (tick oneDay 1061000 1061000 armedApp)
       = [(''patient-care-backup-2025-01-01.json'', ArrayOf [])]
   \<and> lastBackup (backupConfig (tick oneDay 1061000 1061000 armedApp)) = 1061000
   \<and> backupHistory (tick oneDay 1061000 1061000 armedApp)
       = [\<lparr>timestamp = 1061000, filename = ''patient-care-backup-2025-01-01.json''\<rparr>]
   \<and> tick oneDay 1059999 1059999 armedApp = armedApp"
proof -
  have h: "enabled (backupConfig armedApp)" "db armedApp"
    "interval (backupConfig armedApp) = 1" "lastBackup (backupConfig armedApp) = 1000000"
    "maxBackups (backupConfig armedApp) = 5" "backupHistory armedApp = []"
    "downloads armedApp = []" "store armedApp = []"
    by (simp_all add: armedApp_state)
  from tick_backs_up_when_due [of armedApp oneDay 1061000 1061000] h
  have due: "downloads (tick oneDay 1061000 1061000 armedApp)
       = [(''patient-care-backup-2025-01-01.json'', ArrayOf [])]
     \<and> lastBackup (backupConfig (tick oneDay 1061000 1061000 armedApp)) = 1061000
     \<and> backupHistory (tick oneDay 1061000 1061000 armedApp)
       = [\<lparr>timestamp = 1061000, filename = ''patient-care-backup-2025-01-01.json''\<rparr>]"
    by (simp add: oneDay_def stringify_def slice0_def performAutomaticBackup_def Let_def)
  from tick_backs_up_when_due [of armedApp oneDay 1059999 1059999] h
  have early: "tick oneDay 1059999 1059999 armedApp = armedApp"
    by simp
  from due early h show ?thesis by simp
qed

subsection \<open>The backup history\<close>

text \<open>The two steps of a backup, one right after the other, are the backup as a whole.\<close>

lemma backup_in_two_steps:
  "backupData isoDate ts s
     = (case placeRequest s of None \<Rightarrow> s | Some r \<Rightarrow> onsuccess isoDate ts r s)"
  "performAutomaticBackup isoDate ts s
     = (case placeRequest s of None \<Rightarrow> s | Some r \<Rightarrow> onsuccess isoDate ts r s)"
  by (simp_all add: backupData_def performAutomaticBackup_def placeRequest_def onsuccess_def)

lemma length_slice0: "0 \<le> stop \<Longrightarrow> int (length (slice0 xs stop)) \<le> stop"
  by (simp add: slice0_def Let_def)

text \<open>
  The bound of the history holds for every order of the events: while \<open>maxBackups\<close>
  is a fixed \<open>m \<ge> 1\<close>, a history of at most \<open>m\<close> entries stays one.
\<close>

lemma backupStep_bounded:
  assumes "1 \<le> m" "maxBackups (backupConfig s) = m"
    and "\<forall>r \<in> set pending. heldMaxBackups r = m"
    and "int (length (backupHistory s)) \<le> m"
    and "backupStep isoDate e (s, pending) = (s', pending')"
  shows "maxBackups (backupConfig s') = m \<and> (\<forall>r \<in> set pending'. heldMaxBackups r = m)
    \<and> int (length (backupHistory s')) \<le> m"
proof (cases e)
  case Begin
  with assms show ?thesis
    by (auto simp: placeRequest_def split: if_splits)
next
  case (Success ts)
  show ?thesis
  proof (cases pending)
    case Nil
    with Success assms show ?thesis by simp
  next
    case (Cons r rest)
    with assms(3) have r: "heldMaxBackups r = m" by simp
    from assms(1) have "int (length (slice0 (heldHistory r) (m - 1))) \<le> m - 1"
      by (intro length_slice0) simp
    with Success Cons assms r show ?thesis
      by (auto simp: onsuccess_def Let_def)
  qed
qed

lemma backupSteps_bounded:
  "1 \<le> m \<Longrightarrow> maxBackups (backupConfig s) = m \<Longrightarrow>
   \<forall>r \<in> set pending. heldMaxBackups r = m \<Longrightarrow>
   int (length (backupHistory s)) \<le> m \<Longrightarrow>
     int (length (backupHistory (fst (backupSteps isoDate es (s, pending))))) \<le> m"
proof (induction es arbitrary: s pending)
  case Nil
  then show ?case by simp
next
  case (Cons e es)
  obtain s' pending' where step: "backupStep isoDate e (s, pending) = (s', pending')"
    by (cases "backupStep isoDate e (s, pending)")
  from Cons.prems step have "maxBackups (backupConfig s') = m
      \<and> (\<forall>r \<in> set pending'. heldMaxBackups r = m) \<and> int (length (backupHistory s')) \<le> m"
    by (intro backupStep_bounded)
  with Cons.prems(1) Cons.IH [of s' pending'] step show ?case
    by simp
qed

text \<open>
  C2. The bound holds, and backups that follow one another put their entries at the
  head of the history, the latest first. But a backup that is started while another
  one is pending builds its history from the list that was there when it was
  started: two backups started one right after the other make two files and leave
  one entry, that of the second; the entry of the first, which is not the oldest,
  is dropped.
\<close>

theorem overlapping_backups_lose_entry:
  "map timestamp
     (backupHistory (fst (backupSteps oneDay [Begin, Success 10, Begin, Success 20] (freshApp, []))))
     = [20, 10]
   \<and> map timestamp
       (backupHistory (fst (backupSteps oneDay [Begin, Begin, Success 10, Success 20] (freshApp, []))))
       = [20]
   \<and> map fst
       (downloads (fst (backupSteps oneDay [Begin, Begin, Success 10, Success 20] (freshApp, []))))
       = [''patient-care-backup-2025-01-01.json'', ''patient-care-backup-2025-01-01.json'']
   \<and> maxBackups (backupConfig freshApp) = 5"
  by (simp add: freshApp_state placeRequest_def onsuccess_def slice0_def oneDay_def Let_def)

subsection \<open>The settings of the schedule\<close>

text \<open>
  C5. The settings take the number that was typed as it is: with 0 typed into the
  field of the interval, \<^verbatim>\<open>updateBackupInterval\<close> installs an interval of 0, which
  the effect then writes to \<^verbatim>\<open>localStorage\<close>; and the field of the maximum installs
  \<open>maxBackups = 0\<close>, after which a backup leaves a history longer than \<open>maxBackups\<close>.
  Nothing clamps or rejects the value.
\<close>

theorem settings_install_zero:
  "interval (backupConfig (updateBackupInterval 0 freshApp)) = 0
   \<and> savedConfig (saveBackupSettings (updateBackupInterval 0 freshApp))
       = Some \<lparr>enabled = False, interval = 0, lastBackup = 0, maxBackups = 5\<rparr>
   \<and> maxBackups (backupConfig (setMaxBackups 0 freshApp)) = 0
   \<and> savedConfig (saveBackupSettings (setMaxBackups 0 freshApp))
       = Some \<lparr>enabled = False, interval = 60, lastBackup = 0, maxBackups = 0\<rparr>
   \<and> length (backupHistory (backupData oneDay 10 (setMaxBackups 0 freshApp))) = 1"
  by (simp add: freshApp_state updateBackupInterval_def setMaxBackups_def saveBackupSettings_def
      backupData_def slice0_def Let_def)

subsection \<open>The object store\<close>

lemma addEach_records: "addEach (map Record xs) = (map Add xs, True)"
  by (induction xs) simp_all

lemma insort_key_last:
  "\<forall>x \<in> set st. f x < f y \<Longrightarrow> insort_key f y st = st @ [y]"
  by (induction st) auto

text \<open>Adding records in the order of their keys, behind the records that are there.\<close>

lemma requests_ordered:
  "storeOrdered (st @ ys) \<Longrightarrow> requests (map Add ys) st = Some (st @ ys)"
proof (induction ys arbitrary: st)
  case Nil
  then show ?case by simp
next
  case (Cons y ys)
  from Cons.prems have new: "id_p y \<notin> set (map id_p st)"
    by (auto simp: storeOrdered_def)
  from Cons.prems have "\<forall>x \<in> set st. id_p x \<le> id_p y"
    by (auto simp: storeOrdered_def sorted_append)
  with new have "\<forall>x \<in> set st. id_p x < id_p y"
    by (metis image_eqI list.set_map order_less_le)
  then have ins: "insort_key id_p y st = st @ [y]"
    by (rule insort_key_last)
  from Cons.prems have "storeOrdered ((st @ [y]) @ ys)" by simp
  then have "requests (map Add ys) (st @ [y]) = Some ((st @ [y]) @ ys)"
    by (rule Cons.IH)
  with new ins show ?case by simp
qed

lemma transaction_restores:
  "storeOrdered xs \<Longrightarrow> transaction (Clear # map Add xs) st = xs"
  using requests_ordered [of "[]" xs] by (simp add: transaction_def)

lemma distinct_map_insort_key:
  "distinct (map f (insort_key f x xs)) \<longleftrightarrow> f x \<notin> f ` set xs \<and> distinct (map f xs)"
  by (induction xs) (auto simp: set_insort_key)

text \<open>Every transaction leaves the store ordered by key, one record per key.\<close>

lemma requests_keep_order:
  "requests rs st = Some st' \<Longrightarrow> storeOrdered st \<Longrightarrow> storeOrdered st'"
proof (induction rs st rule: requests.induct)
  case (1 st)
  then show ?case by simp
next
  case (2 rs st)
  then show ?case by (simp add: storeOrdered_def)
next
  case (3 p rs st)
  then show ?case
    by (auto simp: storeOrdered_def sorted_insort_key distinct_map_insort_key split: if_splits)
qed

lemma transaction_keeps_order: "storeOrdered st \<Longrightarrow> storeOrdered (transaction rs st)"
  by (auto simp: transaction_def split: option.splits dest: requests_keep_order)

subsection \<open>Export and import\<close>

text \<open>
  C1. Let the database be open, and let the object store hold the collection \<open>P\<close>
  (in the order of the keys, one record per key, as an object store does). The
  backup hands the browser one file, the JSON text of \<open>P\<close>. Restoring this file,
  over whatever the store holds then, succeeds and leaves the store holding exactly
  \<open>P\<close>: every record with every field as it was, absent fields absent. The patients
  in memory are then the records of \<open>P\<close> as a load exposes them. (The text of a file
  is represented by the value that \<^verbatim>\<open>JSON.parse\<close> reads from it, so that
  \<^verbatim>\<open>JSON.stringify\<close> followed by \<^verbatim>\<open>JSON.parse\<close> gives the records back.)
\<close>

theorem export_import_roundtrip:
  "db a \<and> db b \<and> storeOrdered (store a) \<longrightarrow>
     downloads (backupData isoDate ts a)
       = downloads a @ [(''patient-care-backup-'' @ isoDate ts @ ''.json'', stringify (store a))]
     \<and> store (fst (restoreData (Some (stringify (store a))) b)) = store a
     \<and> patients (fst (restoreData (Some (stringify (store a))) b)) = patients (loadPatients a)
     \<and> (\<forall>i < length (store a).
           loadedFrom (store a ! i)
             (patients (fst (restoreData (Some (stringify (store a))) b)) ! i))
     \<and> snd (restoreData (Some (stringify (store a))) b) = Some ''Data restored successfully!''"
  by (auto simp: backupData_def restoreData_def stringify_def addEach_records Let_def
      transaction_restores loadPatients_def loadedFrom_def orEmpty_def split: option.splits)

text \<open>
  The clinic's two patients are exported, and the file is restored in a first run
  of the component, whose store is empty.
\<close>

theorem export_import_roundtrip_witness:
  "db clinicApp \<and> db freshApp \<and> storeOrdered (store clinicApp)
   \<and> store freshApp = []
   \<and> downloads (backupData oneDay 10 clinicApp)
       = [(''patient-care-backup-2025-01-01.json'', stringify [ravi, asha])]
   \<and> store (fst (restoreData (Some (stringify [ravi, asha])) freshApp)) = [ravi, asha]
   \<and> patients (fst (restoreData (Some (stringify [ravi, asha])) freshApp))
       = [ravi\<lparr>medications := Some []\<rparr>, asha]
   \<and> snd (restoreData (Some (stringify [ravi, asha])) freshApp)
       = Some ''Data restored successfully!''"
proof -
  have h: "db clinicApp" "db freshApp" "store clinicApp = [ravi, asha]" "store freshApp = []"
    "downloads clinicApp = []"
    by (simp_all add: clinicApp_state freshApp_state)
  have ord: "storeOrdered (store clinicApp)"
    by (simp add: h storeOrdered_def ravi_def asha_def)
  have loaded: "patients (loadPatients clinicApp) = [ravi\<lparr>medications := Some []\<rparr>, asha]"
    by (simp add: loadPatients_def h orEmpty_def ravi_def asha_def)
  from export_import_roundtrip [of clinicApp freshApp oneDay 10] h ord loaded
  show ?thesis by (simp add: oneDay_def)
qed

text \<open>
  C4. A file that is not JSON leaves the store untouched and is reported. A file
  whose JSON is not an array is reported too, but the store has been cleared before
  the shape of the data is looked at: the clinic's two patients are gone from the
  store. An array with an element that has no id is reported after the elements
  before it have been added: the store holds a part of the file.
\<close>

theorem restore_wrong_shape:
  "store clinicApp = [ravi, asha]
   \<and> restoreData (Some NotArray) clinicApp
       = (clinicApp\<lparr>store := []\<rparr>,
          Some ''Error restoring data. Please check the backup file format.'')
   \<and> store (fst (restoreData (Some (ArrayOf [Record asha, Keyless])) clinicApp)) = [asha]
   \<and> snd (restoreData (Some (ArrayOf [Record asha, Keyless])) clinicApp)
       = Some ''Error restoring data. Please check the backup file format.''
   \<and> restoreData (Some Malformed) clinicApp
       = (clinicApp, Some ''Error restoring data. Please check the backup file format.'')"
  by (simp add: clinicApp_state restoreData_def transaction_def)

subsection \<open>Decimal numerals\<close>

lemma digit_inj: "d < 10 \<Longrightarrow> e < 10 \<Longrightarrow> digit d = digit e \<Longrightarrow> d = e"
  by (simp add: digit_def)

lemma digit_not_minus: "d < 10 \<Longrightarrow> digit d \<noteq> CHR ''-''"
  by (simp add: digit_def char_of_eq_iff take_bit_eq_mod)

lemma digits_not_Nil: "digits n \<noteq> []"
  by (subst digits.simps) simp

lemma digits_no_minus: "CHR ''-'' \<notin> set (digits n)"
proof (induction n rule: digits.induct)
  case (1 n)
  show ?case
  proof (cases "n < 10")
    case True
    then show ?thesis
      using digit_not_minus [of n] by (subst digits.simps) auto
  next
    case False
    with 1 digit_not_minus [of "n mod 10"] show ?thesis
      by (subst digits.simps) auto
  qed
qed

lemma digits_inj: "digits m = digits n \<Longrightarrow> m = n"
proof (induction m arbitrary: n rule: digits.induct)
  case (1 m)
  show ?case
  proof (cases "m < 10")
    case m: True
    show ?thesis
    proof (cases "n < 10")
      case True
      with m 1(2) show ?thesis
        by (simp add: digits.simps [of m] digits.simps [of n] digit_inj)
    next
      case False
      with m 1(2) digits_not_Nil [of "n div 10"] show ?thesis
        by (simp add: digits.simps [of m] digits.simps [of n] Cons_eq_append_conv)
    qed
  next
    case m: False
    show ?thesis
    proof (cases "n < 10")
      case True
      with m 1(2) digits_not_Nil [of "m div 10"] show ?thesis
        by (simp add: digits.simps [of m] digits.simps [of n] append_eq_Cons_conv)
    next
      case False
      with m 1(2) have eq: "digits (m div 10) = digits (n div 10)"
        "digit (m mod 10) = digit (n mod 10)"
        by (simp_all add: digits.simps [of m] digits.simps [of n])
      from 1(1) [OF m eq(1)] have "m div 10 = n div 10" .
      moreover from eq(2) have "m mod 10 = n mod 10"
        by (intro digit_inj) simp_all
      ultimately show ?thesis
        by (metis div_mult_mod_eq)
    qed
  qed
qed

lemma toString_not_Nil: "toString i \<noteq> []"
  by (simp add: toString_def digits_not_Nil)

lemma toString_inj: "toString i = toString j \<Longrightarrow> i = j"
proof -
  assume eq: "toString i = toString j"
  have neg: "False" if "toString a = toString b" "a < 0" "\<not> b < 0" for a b
  proof -
    from that have "CHR ''-'' # digits (nat (- a)) = digits (nat b)"
      by (simp add: toString_def)
    then have "CHR ''-'' \<in> set (digits (nat b))"
      by (metis list.set_intros(1))
    then show False by (simp add: digits_no_minus)
  qed
  show ?thesis
  proof (cases "i < 0"; cases "j < 0")
    assume "i < 0" "j < 0"
    with eq have "nat (- i) = nat (- j)"
      by (simp add: toString_def digits_inj)
    with \<open>i < 0\<close> \<open>j < 0\<close> show ?thesis by simp
  next
    assume "i < 0" "\<not> j < 0"
    with neg [OF eq] show ?thesis by simp
  next
    assume "\<not> i < 0" "j < 0"
    with neg [OF eq [symmetric]] show ?thesis by simp
  next
    assume "\<not> i < 0" "\<not> j < 0"
    with eq have "nat i = nat j"
      by (simp add: toString_def digits_inj)
    with \<open>\<not> i < 0\<close> \<open>\<not> j < 0\<close> show ?thesis by simp
  qed
qed

subsection \<open>Distinct ids\<close>

lemma savePatients_frame:
  "patients (savePatients u s) = patients s"
  "selectedPatient (savePatients u s) = selectedPatient s"
  by (simp_all add: savePatients_def)

lemma medsFrom_mono: "medsFrom M p \<Longrightarrow> M \<subseteq> M' \<Longrightarrow> medsFrom M' p"
  unfolding medsFrom_def by blast

lemma idsFrom_mono: "idsFrom P M s \<Longrightarrow> P \<subseteq> P' \<Longrightarrow> M \<subseteq> M' \<Longrightarrow> idsFrom P' M' s"
  unfolding idsFrom_def by (blast intro: medsFrom_mono)

lemma medsFrom_same:
  "orEmpty (medications q) = orEmpty (medications p) \<Longrightarrow> medsFrom M q = medsFrom M p"
  by (simp add: medsFrom_def)

lemma medsFrom_filter:
  "medsFrom M p \<Longrightarrow> orEmpty (medications q) = filter f (orEmpty (medications p)) \<Longrightarrow>
     medsFrom M q"
  by (simp add: medsFrom_def distinct_map_filter)

lemma medsFrom_append:
  "medsFrom M p \<Longrightarrow> now \<notin> M \<Longrightarrow> id_m m = toString now \<Longrightarrow>
   orEmpty (medications q) = orEmpty (medications p) @ [m] \<Longrightarrow>
     medsFrom (insert now M) q"
proof -
  assume a: "medsFrom M p" "now \<notin> M" "id_m m = toString now"
    "orEmpty (medications q) = orEmpty (medications p) @ [m]"
  from a(2) have "toString now \<notin> toString ` M"
    by (auto dest: toString_inj)
  with a(1) have "toString now \<notin> id_m ` set (orEmpty (medications p))"
    by (auto simp: medsFrom_def)
  with a show ?thesis
    unfolding medsFrom_def by auto
qed

text \<open>Replacing patients by patients of the same id whose medications are in order.\<close>

lemma idsFrom_map:
  assumes "idsFrom P M s"
    and "\<forall>p \<in> set (patients s). id_p (q p) = id_p p \<and> medsFrom M (q p)"
    and "patients s' = map q (patients s)"
    and "\<forall>sp. selectedPatient s' = Some sp \<longrightarrow> medsFrom M sp"
  shows "idsFrom P M s'"
proof -
  from assms(2) have eq: "map id_p (map q (patients s)) = map id_p (patients s)"
    by (simp add: comp_def)
  from assms(1,2,4) have "distinct (map id_p (patients s))"
    "\<forall>p \<in> set (map q (patients s)). id_p p \<in> toString ` P \<and> medsFrom M p"
    "\<forall>sp. selectedPatient s' = Some sp \<longrightarrow> medsFrom M sp"
    by (auto simp: idsFrom_def)
  then show ?thesis
    unfolding idsFrom_def assms(3) eq by blast
qed

lemma addPatient_idsFrom:
  assumes "idsFrom P M s" "now \<notin> P"
  shows "idsFrom (insert now P) M (fst (addPatient now today s))"
proof (cases "name (newPatient s) = [] \<or> mobile (newPatient s) = [] \<or> place (newPatient s) = []")
  case True
  with assms(1) show ?thesis
    by (auto simp: addPatient_def intro: idsFrom_mono)
next
  case valid: False
  show ?thesis
  proof (cases "editingId s \<noteq> None \<and> editingId s \<noteq> Some []")
    case True
    let ?q = "\<lambda>p. if Some (id_p p) = editingId s
                  then (newPatient s)\<lparr>id_p := the (editingId s),
                         medications := Some (orEmpty (medications p))\<rparr>
                  else p"
    let ?s' = "fst (addPatient now today s)"
    have q: "\<forall>p \<in> set (patients s). id_p (?q p) = id_p p \<and> medsFrom M (?q p)"
      using assms(1) by (auto simp: idsFrom_def medsFrom_def orEmpty_def dest: sym)
    have p': "patients ?s' = map ?q (patients s)" "selectedPatient ?s' = selectedPatient s"
      using valid True by (simp_all add: addPatient_def Let_def savePatients_frame)
    from assms(1) have sel: "\<forall>sp. selectedPatient ?s' = Some sp \<longrightarrow> medsFrom M sp"
      by (simp add: p' idsFrom_def)
    from assms(1) q p'(1) sel have "idsFrom P M ?s'"
      by (rule idsFrom_map)
    then show ?thesis
      by (rule idsFrom_mono) auto
  next
    case False
    let ?new = "(newPatient s)\<lparr>id_p := toString now, medications := Some []\<rparr>"
    let ?s' = "fst (addPatient now today s)"
    from assms(2) have fresh: "toString now \<notin> toString ` P"
      by (auto dest: toString_inj)
    have p': "patients ?s' = patients s @ [?new]" "selectedPatient ?s' = selectedPatient s"
      using valid False by (auto simp: addPatient_def Let_def savePatients_frame)
    have new: "medsFrom M ?new"
      by (simp add: medsFrom_def orEmpty_def)
    from assms(1) have old: "idsFrom (insert now P) M s"
      by (rule idsFrom_mono) auto
    from assms(1) fresh have "toString now \<notin> id_p ` set (patients s)"
      by (auto simp: idsFrom_def)
    with old new show ?thesis
      by (auto simp: idsFrom_def p')
  qed
qed

lemma addMedication_idsFrom:
  assumes "idsFrom P M s" "now \<notin> M"
  shows "idsFrom P (insert now M) (fst (addMedication now today s))"
proof (cases "selectedPatient s")
  case None
  with assms(1) show ?thesis
    by (auto simp: addMedication_def intro: idsFrom_mono)
next
  case (Some sp)
  show ?thesis
  proof (cases "description (newMedication s) = []")
    case True
    with Some assms(1) show ?thesis
      by (auto simp: addMedication_def intro: idsFrom_mono)
  next
    case False
    let ?m = "(newMedication s)\<lparr>id_m := toString now\<rparr>"
    let ?u = "sp\<lparr>medications := Some (orEmpty (medications sp) @ [?m])\<rparr>"
    let ?q = "\<lambda>p. if id_p p = id_p sp then ?u else p"
    let ?s' = "fst (addMedication now today s)"
    from assms(1) have wide: "idsFrom P (insert now M) s"
      by (rule idsFrom_mono) auto
    from assms(1) Some have "medsFrom M sp"
      by (simp add: idsFrom_def)
    from this assms(2) have u: "medsFrom (insert now M) ?u"
      by (rule medsFrom_append) (simp_all add: orEmpty_def)
    have p': "patients ?s' = map ?q (patients s)" "selectedPatient ?s' = Some ?u"
      using Some False by (simp_all add: addMedication_def Let_def savePatients_frame)
    from wide u have q:
      "\<forall>p \<in> set (patients s). id_p (?q p) = id_p p \<and> medsFrom (insert now M) (?q p)"
      by (simp add: idsFrom_def)
    from u have sel: "\<forall>x. selectedPatient ?s' = Some x \<longrightarrow> medsFrom (insert now M) x"
      by (simp add: p')
    from wide q p'(1) sel show ?thesis
      by (rule idsFrom_map)
  qed
qed

lemma updateNextVisitDate_idsFrom:
  assumes "idsFrom P M s"
  shows "idsFrom P M (updateNextVisitDate d s)"
proof (cases "selectedPatient s")
  case None
  with assms show ?thesis
    by (simp add: updateNextVisitDate_def)
next
  case (Some sp)
  let ?u = "sp\<lparr>nextVisitDate := d\<rparr>"
  let ?q = "\<lambda>p. if id_p p = id_p sp then ?u else p"
  let ?s' = "updateNextVisitDate d s"
  from assms Some have u: "medsFrom M ?u"
    by (simp add: idsFrom_def medsFrom_def)
  have p': "patients ?s' = map ?q (patients s)" "selectedPatient ?s' = Some ?u"
    using Some by (simp_all add: updateNextVisitDate_def Let_def savePatients_frame)
  from assms u have q: "\<forall>p \<in> set (patients s). id_p (?q p) = id_p p \<and> medsFrom M (?q p)"
    by (simp add: idsFrom_def)
  from u have sel: "\<forall>x. selectedPatient ?s' = Some x \<longrightarrow> medsFrom M x"
    by (simp add: p')
  from assms q p'(1) sel show ?thesis
    by (rule idsFrom_map)
qed

lemma deletePatient_idsFrom:
  assumes "idsFrom P M s"
  shows "idsFrom P M (deletePatient confirmed patientId s)"
  using assms
  by (auto simp: deletePatient_def idsFrom_def Let_def savePatients_frame distinct_map_filter
      split: option.splits)

lemma deleteMedication_idsFrom:
  assumes "idsFrom P M s"
  shows "idsFrom P M (deleteMedication confirmed patientId medicationId s)"
proof (cases "\<not> confirmed
    \<or> list_ex (\<lambda>p. id_p p = patientId \<and> medications p = None) (patients s)")
  case True
  with assms show ?thesis
    by (auto simp: deleteMedication_def)
next
  case False
  let ?f = "\<lambda>m. id_m m \<noteq> medicationId"
  let ?q = "\<lambda>p. if id_p p = patientId
                then p\<lparr>medications := Some (filter ?f (orEmpty (medications p)))\<rparr>
                else p"
  let ?s' = "deleteMedication confirmed patientId medicationId s"
  have del: "medsFrom M (p\<lparr>medications := Some (filter ?f (orEmpty (medications p)))\<rparr>)"
    if "medsFrom M p" for p
    using that by (rule medsFrom_filter) (simp add: orEmpty_def)
  have p': "patients ?s' = map ?q (patients s)"
    using False by (auto simp: deleteMedication_def Let_def savePatients_frame split: option.splits)
  from assms del have q: "\<forall>p \<in> set (patients s). id_p (?q p) = id_p p \<and> medsFrom M (?q p)"
    by (simp add: idsFrom_def)
  have sel: "\<forall>x. selectedPatient ?s' = Some x \<longrightarrow> medsFrom M x"
  proof (intro allI impI)
    fix x
    assume x: "selectedPatient ?s' = Some x"
    show "medsFrom M x"
    proof (cases "selectedPatient s")
      case None
      with False x show ?thesis
        by (simp add: deleteMedication_def Let_def savePatients_frame)
    next
      case (Some sp)
      with assms have sp: "medsFrom M sp"
        by (simp add: idsFrom_def)
      from del [OF sp] have "medsFrom M (sp\<lparr>medications := Some (filter ?f ms)\<rparr>)"
        if "medications sp = Some ms" for ms
        using that by (simp add: orEmpty_def)
      with False x Some sp show ?thesis
        by (auto simp: deleteMedication_def Let_def savePatients_frame
            split: option.splits if_splits)
    qed
  qed
  from assms q p' sel show ?thesis
    by (rule idsFrom_map)
qed

lemma handlePatientClick_idsFrom:
  "idsFrom P M s \<Longrightarrow> patient \<in> set (patients s) \<Longrightarrow> idsFrom P M (handlePatientClick patient s)"
  by (auto simp: handlePatientClick_def idsFrom_def medsFrom_def orEmpty_def)

lemma idsFrom_form:
  "patients s' = patients s \<Longrightarrow> selectedPatient s' = selectedPatient s \<Longrightarrow>
     idsFrom P M s \<Longrightarrow> idsFrom P M s'"
  by (simp add: idsFrom_def)

lemma step_idsFrom:
  assumes "idsFrom P M s" "set (patientClock e) \<inter> P = {}" "set (medicationClock e) \<inter> M = {}"
  shows "idsFrom (P \<union> set (patientClock e)) (M \<union> set (medicationClock e)) (step e s)"
proof (cases e)
  case (SetName v)
  with assms(1) show ?thesis by (simp add: idsFrom_def)
next
  case (SetMobile v)
  with assms(1) show ?thesis by (simp add: idsFrom_def)
next
  case (SetPlace v)
  with assms(1) show ?thesis by (simp add: idsFrom_def)
next
  case (SetVisitedDate v)
  with assms(1) show ?thesis by (simp add: idsFrom_def)
next
  case (SetNotes v)
  with assms(1) show ?thesis by (simp add: idsFrom_def)
next
  case (AddPatient now today)
  with assms addPatient_idsFrom [of P M s now today] show ?thesis by simp
next
  case (EditPatient i)
  have "idsFrom P M (editPatient p s)" for p
    using assms(1) by (rule idsFrom_form [rotated 2]) (simp_all add: editPatient_def)
  with assms(1) EditPatient show ?thesis by simp
next
  case (CancelEdit today)
  have "idsFrom P M (cancelEdit today s)"
    using assms(1) by (rule idsFrom_form [rotated 2]) (simp_all add: cancelEdit_def)
  with CancelEdit show ?thesis by simp
next
  case (DeletePatient i confirmed)
  with assms(1) deletePatient_idsFrom [of P M s confirmed] show ?thesis by simp
next
  case (HandlePatientClick i)
  with assms(1) handlePatientClick_idsFrom [of P M s "patients s ! i"] show ?thesis by simp
next
  case CloseDetails
  with assms(1) show ?thesis by (simp add: idsFrom_def)
next
  case (SetDescription v)
  with assms(1) show ?thesis by (simp add: idsFrom_def)
next
  case (SetDate v)
  with assms(1) show ?thesis by (simp add: idsFrom_def)
next
  case (AddMedication now today)
  with assms addMedication_idsFrom [of P M s now today] show ?thesis by simp
next
  case (DeleteMedication j confirmed)
  with assms(1) deleteMedication_idsFrom [of P M s confirmed] show ?thesis
    by (simp split: option.splits)
next
  case (UpdateNextVisitDate d)
  with assms(1) updateNextVisitDate_idsFrom [of P M s d] show ?thesis by simp
qed

lemma run_idsFrom:
  "idsFrom P M s \<Longrightarrow>
   distinct (concat (map patientClock es)) \<Longrightarrow> set (concat (map patientClock es)) \<inter> P = {} \<Longrightarrow>
   distinct (concat (map medicationClock es)) \<Longrightarrow>
   set (concat (map medicationClock es)) \<inter> M = {} \<Longrightarrow>
     idsFrom (P \<union> set (concat (map patientClock es)))
       (M \<union> set (concat (map medicationClock es))) (run es s)"
proof (induction es arbitrary: s P M)
  case Nil
  then show ?case by simp
next
  case (Cons e es)
  let ?P = "P \<union> set (patientClock e)"
  let ?M = "M \<union> set (medicationClock e)"
  from Cons.prems have "idsFrom ?P ?M (step e s)"
    by (intro step_idsFrom) auto
  moreover from Cons.prems have "distinct (concat (map patientClock es))"
    "set (concat (map patientClock es)) \<inter> ?P = {}"
    "distinct (concat (map medicationClock es))"
    "set (concat (map medicationClock es)) \<inter> ?M = {}"
    by auto
  ultimately have "idsFrom (?P \<union> set (concat (map patientClock es)))
       (?M \<union> set (concat (map medicationClock es))) (run es (step e s))"
    by (rule Cons.IH)
  then show ?case
    by (simp add: Un_assoc)
qed

lemma idsFrom_idsDistinct: "idsFrom P M s \<Longrightarrow> idsDistinct s"
  by (auto simp: idsFrom_def idsDistinct_def medsFrom_def toString_not_Nil)

text \<open>
  C7, as the code has it. An id is the numeral of the clock reading at which the
  patient or the medication is added. In a first run of the component, after any
  sequence of operations on the patient list, the form and the details of the
  selected patient, in which no two additions of a patient take the same clock
  reading and no two additions of a medication take the same clock reading, the ids
  of the patients are distinct and not empty, and within each patient the ids of
  the medications are distinct.
\<close>

theorem ids_distinct:
  "distinct (concat (map patientClock es)) \<and> distinct (concat (map medicationClock es)) \<longrightarrow>
     idsDistinct (run es (openDatabase (initialApp today [])))"
proof
  assume a: "distinct (concat (map patientClock es)) \<and> distinct (concat (map medicationClock es))"
  have "idsFrom {} {} (openDatabase (initialApp today []))"
    by (simp add: idsFrom_def openDatabase_def initialApp_def loadPatients_def)
  with a have "idsFrom ({} \<union> set (concat (map patientClock es)))
       ({} \<union> set (concat (map medicationClock es))) (run es (openDatabase (initialApp today [])))"
    by (intro run_idsFrom) simp_all
  then show "idsDistinct (run es (openDatabase (initialApp today [])))"
    by (rule idsFrom_idsDistinct)
qed

lemma toString_examples:
  "toString 5 = ''5''" "toString 7 = ''7''" "toString 8 = ''8''"
  by code_simp+

theorem ids_distinct_witness:
  "distinct (concat (map patientClock threeAdds))
   \<and> distinct (concat (map medicationClock threeAdds))
   \<and> idsDistinct (run threeAdds freshApp)
   \<and> map id_p (patients (run threeAdds freshApp)) = [''5'']
   \<and> map id_m (orEmpty (medications (patients (run threeAdds freshApp) ! 0))) = [''7'', ''8'']"
proof -
  have h: "distinct (concat (map patientClock threeAdds))
      \<and> distinct (concat (map medicationClock threeAdds))"
    by (simp add: threeAdds_def)
  with ids_distinct [of threeAdds "''2025-01-01''"]
  have ok: "idsDistinct (run threeAdds freshApp)"
    by (simp add: freshApp_def)
  have "patients (run threeAdds freshApp)
      = [\<lparr>id_p = ''5'', name = ''Asha'', mobile = ''9999999999'', place = ''Kochi'',
          visitedDate = ''2025-01-01'', nextVisitDate = [],
          medications =
            Some [\<lparr>id_m = ''7'', description = ''Ashwagandha 500mg'', date = ''2025-01-01''\<rparr>,
                  \<lparr>id_m = ''8'', description = ''Triphala'', date = ''2025-01-01''\<rparr>],
          notes_p = Some []\<rparr>]"
    by (simp add: threeAdds_def freshApp_state addPatient_def addMedication_def
        handlePatientClick_def savePatients_def blankPatient_def blankMedication_def
        toString_examples orEmpty_def Let_def)
  with h ok show ?thesis
    by (simp add: orEmpty_def)
qed

text \<open>
  The claim as it is written fails: two patients added at the same clock reading
  get the same id.
\<close>

theorem same_clock_same_id:
  "map id_p (patients (run sameClock freshApp)) = [''5'', ''5'']
   \<and> map name (patients (run sameClock freshApp)) = [''Asha'', ''Ravi'']
   \<and> \<not> idsDistinct (run sameClock freshApp)"
proof -
  have "patients (run sameClock freshApp)
      = [\<lparr>id_p = ''5'', name = ''Asha'', mobile = ''9999999999'', place = ''Kochi'',
          visitedDate = ''2025-01-01'', nextVisitDate = [], medications = Some [],
          notes_p = Some []\<rparr>,
         \<lparr>id_p = ''5'', name = ''Ravi'', mobile = ''8888888888'', place = ''Kollam'',
          visitedDate = ''2025-01-01'', nextVisitDate = [], medications = Some [],
          notes_p = Some []\<rparr>]"
    by (simp add: sameClock_def freshApp_state addPatient_def savePatients_def
        blankPatient_def toString_examples Let_def)
  then show ?thesis
    by (simp add: idsDistinct_def)
qed

end
